theory Spec2Isabelle
  imports Complex_Main "HOL-Library.Monad_Syntax" "HOL-Library.AList"
begin

section \<open>Raw records: JSON values as Python sees them\<close>

text \<open>
  A raw paper is what \<^verbatim>\<open>json.load\<close> or the API client hands over: a Python dict whose
  values are arbitrary JSON values. A dict is an association list read with \<open>map_of\<close>;
  Python's \<^verbatim>\<open>None\<close> is \<open>JNull\<close>. A float is only ever tested for being zero and passed
  through, so it is a real number here.
\<close>

datatype json =
    JNull
  | JBool bool
  | JInt int
  | JFloat real
  | JStr string
  | JList "json list"
  | JObj "(string \<times> json) list"

type_synonym raw_record = "(string \<times> json) list"

text \<open>
  An exception that propagates is the value \<open>None\<close> of an option type. Every handler in
  the pipeline is \<^verbatim>\<open>except Exception\<close> and never looks at the exception's class.
\<close>

text \<open>Python truthiness, as used by \<^verbatim>\<open>if x\<close>, \<^verbatim>\<open>not x\<close> and \<^verbatim>\<open>x or y\<close>.\<close>

fun py_truthy :: "json \<Rightarrow> bool" where
  "py_truthy JNull = False"
| "py_truthy (JBool b) = b"
| "py_truthy (JInt n) = (n \<noteq> 0)"
| "py_truthy (JFloat x) = (x \<noteq> 0)"
| "py_truthy (JStr s) = (s \<noteq> [])"
| "py_truthy (JList xs) = (xs \<noteq> [])"
| "py_truthy (JObj kvs) = (kvs \<noteq> [])"

definition py_or :: "json \<Rightarrow> json \<Rightarrow> json" where
  "py_or x y = (if py_truthy x then x else y)"

text \<open>\<^verbatim>\<open>d.get(k, default)\<close> on a dict, and \<^verbatim>\<open>d.get(k)\<close> whose default is \<^verbatim>\<open>None\<close>.\<close>

definition dict_get :: "raw_record \<Rightarrow> string \<Rightarrow> json \<Rightarrow> json" where
  "dict_get d k dflt = (case map_of d k of None \<Rightarrow> dflt | Some v \<Rightarrow> v)"

text \<open>
  \<^verbatim>\<open>x.get(k, default)\<close> on a value that need not be a dict: only a dict has the method,
  every other JSON value raises AttributeError.
\<close>

fun attr_get :: "json \<Rightarrow> string \<Rightarrow> json \<Rightarrow> json option" where
  "attr_get (JObj d) k dflt = Some (dict_get d k dflt)"
| "attr_get _ k dflt = None"

text \<open>\<^verbatim>\<open>s.startswith(p)\<close> on strings.\<close>

definition startswith :: "string \<Rightarrow> string \<Rightarrow> bool" where
  "startswith s p = (take (length p) s = p)"

text \<open>
  \<^verbatim>\<open>s.replace(old, new)\<close>: scanning from the left, every non-overlapping occurrence of
  \<open>old\<close> is replaced. \<open>replace_scan\<close> is the scan for a non-empty \<open>old\<close>; with an empty
  \<open>old\<close> Python puts \<open>new\<close> before every character and at the end.
\<close>

fun replace_scan :: "string \<Rightarrow> string \<Rightarrow> string \<Rightarrow> string" where
  "replace_scan [] old new = []"
| "replace_scan (c # cs) old new =
     (if old \<noteq> [] \<and> startswith (c # cs) old
      then new @ replace_scan (drop (length old) (c # cs)) old new
      else c # replace_scan cs old new)"

definition str_replace :: "string \<Rightarrow> string \<Rightarrow> string \<Rightarrow> string" where
  "str_replace s old new =
     (if old = [] then new @ concat (map (\<lambda>c. c # new) s) else replace_scan s old new)"

text \<open>\<^verbatim>\<open>x.replace(old, new)\<close> and \<^verbatim>\<open>x.startswith(p)\<close> on a value that need not be a string.\<close>

fun attr_replace :: "json \<Rightarrow> string \<Rightarrow> string \<Rightarrow> string option" where
  "attr_replace (JStr s) old new = Some (str_replace s old new)"
| "attr_replace _ old new = None"

fun attr_startswith :: "json \<Rightarrow> string \<Rightarrow> bool option" where
  "attr_startswith (JStr s) p = Some (startswith s p)"
| "attr_startswith _ p = None"

section \<open>The record normalizer\<close>

text \<open>
  \<^verbatim>\<open>process_paper\<close> returns a tuple of 22 values in column order; the tuple is a record
  whose fields carry the column names. \<open>openalex_id\<close> is always a string (the result of
  \<^verbatim>\<open>str.replace\<close>); every other component is whatever JSON value the raw record had.
\<close>

record processed_paper =
  openalex_id :: string
  doi :: json
  title :: json
  paper_type :: json
  publication_date :: json
  publication_year :: json
  primary_topic_name :: json
  primary_topic_score :: json
  subfield_name :: json
  field_name :: json
  domain_name :: json
  is_open_access :: json
  oa_status :: json
  cited_by_count :: json
  citation_percentile :: json
  is_top_1_percent :: json
  is_top_10_percent :: json
  citation_percentile_min :: json
  citation_percentile_max :: json
  fwci :: json
  countries_count :: json
  institutions_count :: json

definition extract_doi :: "raw_record \<Rightarrow> json option" where
  "extract_doi paper =
     (let doi = dict_get paper ''doi'' JNull in
      if py_truthy doi then
        do {
          has_prefix \<leftarrow> attr_startswith doi ''https://doi.org/'';
          if has_prefix
          then map_option JStr (attr_replace doi ''https://doi.org/'' '''')
          else Some doi
        }
      else Some JNull)"

text \<open>
  The pattern \<^verbatim>\<open>x.get(k, default) if x else other\<close> of the nested lookups: the method is
  called only on a truthy \<open>x\<close>, and raises unless that \<open>x\<close> is a dict.
\<close>

definition get_if :: "json \<Rightarrow> string \<Rightarrow> json \<Rightarrow> json \<Rightarrow> json option" where
  "get_if x k dflt other = (if py_truthy x then attr_get x k dflt else Some other)"

definition process_paper :: "raw_record \<Rightarrow> processed_paper option" where
  "process_paper paper =
     do {
       openalex_id \<leftarrow> attr_replace (dict_get paper ''id'' (JStr '''')) ''https://openalex.org/'' '''';
       doi \<leftarrow> extract_doi paper;
       let title = py_or (dict_get paper ''title'' (JStr '''')) (dict_get paper ''display_name'' (JStr ''''));
       let paper_type = dict_get paper ''type'' JNull;
       let publication_date = dict_get paper ''publication_date'' JNull;
       let publication_year = dict_get paper ''publication_year'' JNull;
       let primary_topic = dict_get paper ''primary_topic'' (JObj []);
       primary_topic_name \<leftarrow> get_if primary_topic ''display_name'' JNull JNull;
       primary_topic_score \<leftarrow> get_if primary_topic ''score'' JNull JNull;
       subfield \<leftarrow> get_if primary_topic ''subfield'' (JObj []) (JObj []);
       subfield_name \<leftarrow> get_if subfield ''display_name'' JNull JNull;
       field \<leftarrow> get_if primary_topic ''field'' (JObj []) (JObj []);
       field_name \<leftarrow> get_if field ''display_name'' JNull JNull;
       domain \<leftarrow> get_if primary_topic ''domain'' (JObj []) (JObj []);
       domain_name \<leftarrow> get_if domain ''display_name'' JNull JNull;
       let open_access = dict_get paper ''open_access'' (JObj []);
       is_open_access \<leftarrow> get_if open_access ''is_oa'' (JBool False) (JBool False);
       oa_status \<leftarrow> get_if open_access ''oa_status'' JNull JNull;
       let cited_by_count = py_or (dict_get paper ''cited_by_count'' (JInt 0)) (JInt 0);
       let citation_normalized = dict_get paper ''citation_normalized_percentile'' (JObj []);
       citation_percentile \<leftarrow> get_if citation_normalized ''value'' JNull JNull;
       is_top_1_percent \<leftarrow> get_if citation_normalized ''is_in_top_1_percent'' (JBool False) (JBool False);
       is_top_10_percent \<leftarrow> get_if citation_normalized ''is_in_top_10_percent'' (JBool False) (JBool False);
       let cited_by_percentile_year = dict_get paper ''cited_by_percentile_year'' (JObj []);
       citation_percentile_min \<leftarrow> get_if cited_by_percentile_year ''min'' JNull JNull;
       citation_percentile_max \<leftarrow> get_if cited_by_percentile_year ''max'' JNull JNull;
       let fwci = JNull;
       let countries_count = py_or (dict_get paper ''countries_distinct_count'' (JInt 0)) (JInt 0);
       let institutions_count = py_or (dict_get paper ''institutions_distinct_count'' (JInt 0)) (JInt 0);
       Some \<lparr> openalex_id = openalex_id, doi = doi, title = title, paper_type = paper_type,
              publication_date = publication_date, publication_year = publication_year,
              primary_topic_name = primary_topic_name, primary_topic_score = primary_topic_score,
              subfield_name = subfield_name, field_name = field_name, domain_name = domain_name,
              is_open_access = is_open_access, oa_status = oa_status,
              cited_by_count = cited_by_count, citation_percentile = citation_percentile,
              is_top_1_percent = is_top_1_percent, is_top_10_percent = is_top_10_percent,
              citation_percentile_min = citation_percentile_min,
              citation_percentile_max = citation_percentile_max, fwci = fwci,
              countries_count = countries_count, institutions_count = institutions_count \<rparr>
     }"

text \<open>
  The elements of the input list are whatever the caller hands over: the snapshot loader
  passes on the list that \<^verbatim>\<open>json.load\<close> returned, unchecked. \<open>process_paper_value\<close> is
  \<^verbatim>\<open>process_paper(paper)\<close> on such an element: its first statement is
  \<^verbatim>\<open>paper.get('id', '')\<close>, which raises on anything but a dict.
\<close>

definition process_paper_value :: "json \<Rightarrow> processed_paper option" where
  "process_paper_value paper =
     (case paper of JObj d \<Rightarrow> process_paper d | _ \<Rightarrow> None)"

text \<open>
  The first loop of \<^verbatim>\<open>insert_papers_with_deduplication\<close>: each element is processed
  inside \<^verbatim>\<open>try\<close>; an empty \<open>openalex_id\<close> adds one to \<open>skipped\<close> and goes on to the next
  element. The \<^verbatim>\<open>except\<close> clause first evaluates \<^verbatim>\<open>paper.get('id', 'unknown')\<close> for its
  warning, and only then adds one to \<open>skipped\<close>; when that call raises, the exception
  leaves the loop, and the result is \<open>None\<close>.
\<close>

fun process_papers ::
  "json list \<Rightarrow> processed_paper list \<Rightarrow> nat \<Rightarrow> (processed_paper list \<times> nat) option" where
  "process_papers [] processed_papers skipped = Some (processed_papers, skipped)"
| "process_papers (paper # rest) processed_papers skipped =
     (case process_paper_value paper of
        Some processed \<Rightarrow>
          if openalex_id processed = []
          then process_papers rest processed_papers (skipped + 1)
          else process_papers rest (processed_papers @ [processed]) skipped
      | None \<Rightarrow>
          (case attr_get paper ''id'' (JStr ''unknown'') of
             None \<Rightarrow> None
           | Some _ \<Rightarrow> process_papers rest processed_papers (skipped + 1)))"

text \<open>
  What the specification calls stripping the known URL prefix, in its own words: the
  prefix is removed when the identifier starts with it, and nothing else changes.
  \<open>occurs_in p s\<close> is Python's \<^verbatim>\<open>p in s\<close>.
\<close>

definition spec_strip_prefix :: "string \<Rightarrow> string \<Rightarrow> string" where
  "spec_strip_prefix p s = (if startswith s p then drop (length p) s else s)"

fun occurs_in :: "string \<Rightarrow> string \<Rightarrow> bool" where
  "occurs_in p [] = (p = [])"
| "occurs_in p (c # cs) = (startswith (c # cs) p \<or> occurs_in p cs)"

section \<open>The store\<close>

text \<open>
  A row of the \<^verbatim>\<open>papers\<close> table has the 22 columns of the tuple and the two
  bookkeeping timestamps; the surrogate \<^verbatim>\<open>id SERIAL\<close> column is never read or written by
  the pipeline and is left out. Values are stored as they are handed over. The table is
  the list of its rows.
\<close>

record row = processed_paper +
  created_at :: nat
  updated_at :: nat

text \<open>
  The statement \<^verbatim>\<open>insert_sql\<close>, run at transaction time \<open>now\<close> (\<^verbatim>\<open>CURRENT_TIMESTAMP\<close>).
  Without a conflict on \<open>openalex_id\<close> a row is inserted, \<open>updated_at\<close> set by the
  statement and \<open>created_at\<close> by the column default. With a conflict the
  \<^verbatim>\<open>DO UPDATE SET\<close> list is applied to the conflicting row.
\<close>

definition do_update_set :: "nat \<Rightarrow> processed_paper \<Rightarrow> row \<Rightarrow> row" where
  "do_update_set now excluded r =
     r\<lparr> doi := doi excluded,
        title := title excluded,
        paper_type := paper_type excluded,
        publication_date := publication_date excluded,
        publication_year := publication_year excluded,
        primary_topic_name := primary_topic_name excluded,
        primary_topic_score := primary_topic_score excluded,
        subfield_name := subfield_name excluded,
        field_name := field_name excluded,
        domain_name := domain_name excluded,
        is_open_access := is_open_access excluded,
        oa_status := oa_status excluded,
        cited_by_count := cited_by_count excluded,
        citation_percentile := citation_percentile excluded,
        is_top_1_percent := is_top_1_percent excluded,
        is_top_10_percent := is_top_10_percent excluded,
        citation_percentile_min := citation_percentile_min excluded,
        citation_percentile_max := citation_percentile_max excluded,
        fwci := fwci excluded,
        countries_count := countries_count excluded,
        institutions_count := institutions_count excluded,
        updated_at := now \<rparr>"

definition insert_sql :: "nat \<Rightarrow> processed_paper \<Rightarrow> row list \<Rightarrow> row list" where
  "insert_sql now p rows =
     (if \<exists>r \<in> set rows. openalex_id r = openalex_id p
      then map (\<lambda>r. if openalex_id r = openalex_id p then do_update_set now p r else r) rows
      else rows @ [processed_paper.extend p \<lparr> created_at = now, updated_at = now \<rparr>])"

text \<open>
  The database as the pipeline sees it: whether the \<^verbatim>\<open>papers\<close> table exists, its
  committed rows, and how many write transactions have been begun (the index of the next
  transaction's timestamp).
\<close>

record db =
  table_present :: bool
  table_rows :: "row list"
  txn :: nat

text \<open>
  Everything outside the program, as parameters: what the API query returns (or that it
  raises), whether a connection can be had, which DDL statements succeed, which rows the
  store accepts (its column types and constraints), the timestamp of each transaction,
  and the outcome of each validation query.
\<close>

datatype ddl_step = CreateExtension | CreateTable | CreateIndexes | AddComments

datatype query_outcome = QError | QNoRow | QRow int

record world =
  api :: "json list option"
  db_reachable :: bool
  ddl_ok :: "ddl_step \<Rightarrow> bool"
  accepts :: "processed_paper \<Rightarrow> bool"
  clock :: "nat \<Rightarrow> nat"
  query :: "string \<Rightarrow> query_outcome"

text \<open>
  \<^verbatim>\<open>cur.execute(insert_sql, paper_data)\<close> inside the current transaction: it raises when
  the table is missing or the store rejects the row. \<^verbatim>\<open>cur.executemany\<close> runs the
  statement for each row in order and stops at the first one that raises.
\<close>

definition execute :: "world \<Rightarrow> processed_paper \<Rightarrow> db \<Rightarrow> db option" where
  "execute w paper_data d =
     (if table_present d \<and> accepts w paper_data
      then Some (d\<lparr> table_rows := insert_sql (clock w (txn d)) paper_data (table_rows d) \<rparr>)
      else None)"

fun executemany :: "world \<Rightarrow> processed_paper list \<Rightarrow> db \<Rightarrow> db option" where
  "executemany w [] d = Some d"
| "executemany w (p # ps) d = do { d' \<leftarrow> execute w p d; executemany w ps d' }"

text \<open>
  \<^verbatim>\<open>conn.commit()\<close> keeps the transaction's writes; \<^verbatim>\<open>conn.rollback()\<close> goes back to the
  state \<open>d\<close> the transaction started from. Either way the next statement begins a new
  transaction.
\<close>

definition commit :: "db \<Rightarrow> db" where
  "commit d' = d'\<lparr> txn := Suc (txn d') \<rparr>"

definition rollback :: "db \<Rightarrow> db" where
  "rollback d = d\<lparr> txn := Suc (txn d) \<rparr>"

section \<open>The batch upserter\<close>

text \<open>The fallback loop's body: one row, in its own transaction.\<close>

definition insert_row :: "world \<Rightarrow> processed_paper \<Rightarrow> db \<times> nat \<Rightarrow> db \<times> nat" where
  "insert_row w paper_data = (\<lambda>(d, total_inserted).
     case execute w paper_data d of
       Some d' \<Rightarrow> (commit d', total_inserted + 1)
     | None \<Rightarrow> (rollback d, total_inserted))"

text \<open>The batch loop's body: the whole batch in one transaction, else row by row.\<close>

definition insert_batch :: "world \<Rightarrow> processed_paper list \<Rightarrow> db \<times> nat \<Rightarrow> db \<times> nat" where
  "insert_batch w batch = (\<lambda>(d, total_inserted).
     case executemany w batch d of
       Some d' \<Rightarrow> (commit d', total_inserted + length batch)
     | None \<Rightarrow> fold (insert_row w) batch (rollback d, total_inserted))"

text \<open>
  \<^verbatim>\<open>range(0, n, step)\<close>: a zero step raises ValueError, a negative step gives no index.
\<close>

definition py_range :: "nat \<Rightarrow> int \<Rightarrow> nat list option" where
  "py_range n step =
     (if step = 0 then None
      else if step < 0 then Some []
      else Some (map (\<lambda>k. k * nat step) [0 ..< (n + nat step - 1) div nat step]))"

text \<open>\<^verbatim>\<open>processed_papers[i:i + batch_size]\<close> for a positive \<open>batch_size\<close>.\<close>

definition batch_at :: "processed_paper list \<Rightarrow> nat \<Rightarrow> int \<Rightarrow> processed_paper list" where
  "batch_at processed_papers i batch_size = take (nat batch_size) (drop i processed_papers)"

definition insert_batches ::
  "world \<Rightarrow> int \<Rightarrow> processed_paper list \<Rightarrow> db \<Rightarrow> (db \<times> nat) option" where
  "insert_batches w batch_size processed_papers d =
     do {
       starts \<leftarrow> py_range (length processed_papers) batch_size;
       Some (fold (\<lambda>i. insert_batch w (batch_at processed_papers i batch_size)) starts (d, 0))
     }"

text \<open>
  \<^verbatim>\<open>insert_papers_with_deduplication\<close>: the result is the returned count, or \<open>None\<close> when
  an exception leaves the function (out of the first loop, before any connection is
  taken; no connection; or a zero batch size), together with the database afterwards.
\<close>

definition insert_papers_with_deduplication ::
  "world \<Rightarrow> int \<Rightarrow> json list \<Rightarrow> db \<Rightarrow> nat option \<times> db" where
  "insert_papers_with_deduplication w batch_size papers d =
     (case process_papers papers [] 0 of
        None \<Rightarrow> (None, d)
      | Some (processed_papers, skipped) \<Rightarrow>
          if \<not> db_reachable w then (None, d)
          else case insert_batches w batch_size processed_papers d of
                 None \<Rightarrow> (None, d)
               | Some (d', total_inserted) \<Rightarrow> (Some total_inserted, d'))"

definition upload_papers :: "world \<Rightarrow> int \<Rightarrow> json list \<Rightarrow> db \<Rightarrow> nat option \<times> db" where
  "upload_papers w batch_size papers d =
     (if papers = [] then (Some 0, d)
      else insert_papers_with_deduplication w batch_size papers d)"

section \<open>Table setup\<close>

text \<open>
  \<^verbatim>\<open>table_exists\<close> asks the catalogue through a pooled cursor; it raises when no
  connection can be had.
\<close>

definition table_exists :: "world \<Rightarrow> db \<Rightarrow> bool option" where
  "table_exists w d = (if db_reachable w then Some (table_present d) else None)"

text \<open>
  \<^verbatim>\<open>create_table_if_needed\<close>: nothing is done when the table exists; otherwise the
  extension, the table, the indexes and the comments are created in that order, each in
  its own committed cursor block, so a failure after the table was created leaves the
  empty table behind.
\<close>

definition create_table_if_needed :: "world \<Rightarrow> db \<Rightarrow> unit option \<times> db" where
  "create_table_if_needed w d =
     (case table_exists w d of
        None \<Rightarrow> (None, d)
      | Some True \<Rightarrow> (Some (), d)
      | Some False \<Rightarrow>
          if \<not> ddl_ok w CreateExtension then (None, d)
          else if \<not> ddl_ok w CreateTable then (None, d)
          else let d' = d\<lparr> table_present := True, table_rows := [] \<rparr> in
               if \<not> ddl_ok w CreateIndexes then (None, d')
               else if \<not> ddl_ok w AddComments then (None, d')
               else (Some (), d'))"

section \<open>The data quality validator\<close>

datatype test_status = PASS | FAIL | ERROR

record test_result =
  name :: string
  status :: test_status
  count :: "int option"
  passed :: bool

text \<open>
  \<^verbatim>\<open>run_test\<close> of the pipeline class. The query's outcome comes from the world, looked
  up by the test's name; an exception anywhere in the block (no connection, a failing
  query) gives the error result with \<open>passed = False\<close>.
\<close>

definition run_test :: "world \<Rightarrow> string \<Rightarrow> bool \<Rightarrow> test_result" where
  "run_test w test_name expect_zero =
     (case (if db_reachable w then query w test_name else QError) of
        QError \<Rightarrow> \<lparr> name = test_name, status = ERROR, count = None, passed = False \<rparr>
      | outcome \<Rightarrow>
          let count = (case outcome of QRow c \<Rightarrow> c | _ \<Rightarrow> 0);
              passed = (if expect_zero then count = 0 else count > 0)
          in \<lparr> name = test_name, status = (if passed then PASS else FAIL),
               count = Some count, passed = passed \<rparr>)"

text \<open>The counters both validators keep while the tests run.\<close>

record counters =
  results :: "test_result list"
  total_tests :: nat
  passed_tests :: nat
  failed_tests :: nat

definition no_tests :: counters where
  "no_tests = \<lparr> results = [], total_tests = 0, passed_tests = 0, failed_tests = 0 \<rparr>"

text \<open>
  In \<^verbatim>\<open>run_data_quality_tests\<close> every test but the last is appended and counted by its
  \<open>passed\<close> flag; the duplicate-DOI test is appended and always counted as passed.
\<close>

definition count_test :: "test_result \<Rightarrow> counters \<Rightarrow> counters" where
  "count_test test c =
     (let c = c\<lparr> results := results c @ [test], total_tests := total_tests c + 1 \<rparr> in
      if passed test then c\<lparr> passed_tests := passed_tests c + 1 \<rparr>
      else c\<lparr> failed_tests := failed_tests c + 1 \<rparr>)"

definition count_informational :: "test_result \<Rightarrow> counters \<Rightarrow> counters" where
  "count_informational test c =
     c\<lparr> results := results c @ [test], total_tests := total_tests c + 1,
        passed_tests := passed_tests c + 1 \<rparr>"

text \<open>The nine tests that count, in the order they run, and the informational one.\<close>

definition counted_tests :: "string list" where
  "counted_tests =
     [''Missing openalex_id'', ''Missing title'',
      ''Negative cited_by_count'', ''Negative countries_count'', ''Negative institutions_count'',
      ''Invalid citation_percentile range'', ''Invalid primary_topic_score range'', ''Negative fwci'',
      ''Duplicate openalex_id'']"

definition doi_test :: string where
  "doi_test = ''Duplicate DOI''"

text \<open>
  \<^verbatim>\<open>SELECT COUNT(*) FROM papers\<close> followed by \<^verbatim>\<open>cur.fetchone()[0]\<close>: raises when the query
  fails or gives no row. Its outcome is looked up under the statement's text.
\<close>

definition fetch_total_count :: "world \<Rightarrow> int option" where
  "fetch_total_count w =
     (if db_reachable w
      then (case query w ''SELECT COUNT(*) FROM papers;'' of QRow c \<Rightarrow> Some c | _ \<Rightarrow> None)
      else None)"

definition run_data_quality_tests :: "world \<Rightarrow> db \<Rightarrow> int option" where
  "run_data_quality_tests w d =
     do {
       present \<leftarrow> table_exists w d;
       if \<not> present then Some 1
       else do {
         total_count \<leftarrow> fetch_total_count w;
         let c = fold (\<lambda>test_name. count_test (run_test w test_name True)) counted_tests no_tests;
         let c = count_informational (run_test w doi_test True) c;
         Some (if failed_tests c = 0 then 0 else 1)
       }
     }"

text \<open>
  The stand-alone validator class of \<^verbatim>\<open>data_quality_tests.py\<close>. Its \<^verbatim>\<open>run_test\<close> does the
  counting itself, for every test alike.
\<close>

definition validator_run_test :: "world \<Rightarrow> string \<Rightarrow> bool \<Rightarrow> counters \<Rightarrow> counters" where
  "validator_run_test w test_name expect_zero self =
     (let self = self\<lparr> total_tests := total_tests self + 1 \<rparr> in
      case (if db_reachable w then query w test_name else QError) of
        QError \<Rightarrow>
          self\<lparr> failed_tests := failed_tests self + 1,
                results := results self @
                  [\<lparr> name = test_name, status = ERROR, count = None, passed = False \<rparr>] \<rparr>
      | outcome \<Rightarrow>
          let count = (case outcome of QRow c \<Rightarrow> c | _ \<Rightarrow> 0);
              passed = (if expect_zero then count = 0 else count > 0);
              self = (if passed then self\<lparr> passed_tests := passed_tests self + 1 \<rparr>
                      else self\<lparr> failed_tests := failed_tests self + 1 \<rparr>)
          in self\<lparr> results := results self @
                      [\<lparr> name = test_name, status = (if passed then PASS else FAIL),
                         count = Some count, passed = passed \<rparr>] \<rparr>)"

definition test_missing_required_fields :: "world \<Rightarrow> counters \<Rightarrow> counters" where
  "test_missing_required_fields w self =
     validator_run_test w ''Missing title'' True
       (validator_run_test w ''Missing openalex_id'' True self)"

definition test_citation_count_validation :: "world \<Rightarrow> counters \<Rightarrow> counters" where
  "test_citation_count_validation w self =
     validator_run_test w ''Negative institutions_count'' True
       (validator_run_test w ''Negative countries_count'' True
         (validator_run_test w ''Negative cited_by_count'' True self))"

definition test_score_range_validation :: "world \<Rightarrow> counters \<Rightarrow> counters" where
  "test_score_range_validation w self =
     validator_run_test w ''Negative fwci'' True
       (validator_run_test w ''Invalid primary_topic_score range'' True
         (validator_run_test w ''Invalid citation_percentile range'' True self))"

definition test_duplicate_detection :: "world \<Rightarrow> counters \<Rightarrow> counters" where
  "test_duplicate_detection w self =
     validator_run_test w ''Duplicate DOI'' True
       (validator_run_test w ''Duplicate openalex_id'' True self)"

definition print_results :: "counters \<Rightarrow> int" where
  "print_results self = (if failed_tests self = 0 then 0 else 1)"

definition run_all_tests :: "world \<Rightarrow> db \<Rightarrow> int" where
  "run_all_tests w d =
     (case do { present \<leftarrow> table_exists w d;
                if \<not> present then Some False
                else do { total_count \<leftarrow> fetch_total_count w; Some True } } of
        None \<Rightarrow> 1
      | Some False \<Rightarrow> 1
      | Some True \<Rightarrow>
          print_results
            (test_duplicate_detection w
              (test_score_range_validation w
                (test_citation_count_validation w
                  (test_missing_required_fields w no_tests)))))"

section \<open>The orchestrator\<close>

text \<open>
  \<^verbatim>\<open>run\<close> returns the exit code; the model returns with it the database afterwards and
  the steps that were entered, in order. Any exception inside the \<^verbatim>\<open>try\<close> gives exit
  code 1. The \<^verbatim>\<open>finally\<close> clause only closes pooled connections.
\<close>

datatype step = QueryApi | CreateTableIfNeeded | UploadPapers | DataQualityTests

definition run :: "world \<Rightarrow> int \<Rightarrow> bool \<Rightarrow> db \<Rightarrow> int \<times> db \<times> step list" where
  "run w batch_size skip_tests d =
     (case api w of
        None \<Rightarrow> (1, d, [QueryApi])
      | Some papers \<Rightarrow>
          if papers = [] then (0, d, [QueryApi])
          else
            (case create_table_if_needed w d of
               (None, d1) \<Rightarrow> (1, d1, [QueryApi, CreateTableIfNeeded])
             | (Some _, d1) \<Rightarrow>
                 (case upload_papers w batch_size papers d1 of
                    (None, d2) \<Rightarrow> (1, d2, [QueryApi, CreateTableIfNeeded, UploadPapers])
                  | (Some _, d2) \<Rightarrow>
                      if \<not> skip_tests then
                        (case run_data_quality_tests w d2 of
                           None \<Rightarrow>
                             (1, d2, [QueryApi, CreateTableIfNeeded, UploadPapers, DataQualityTests])
                         | Some exit_code \<Rightarrow>
                             (exit_code, d2,
                              [QueryApi, CreateTableIfNeeded, UploadPapers, DataQualityTests]))
                      else (0, d2, [QueryApi, CreateTableIfNeeded, UploadPapers]))))"

section \<open>Properties of the normalizer\<close>

lemma replace_scan_absent:
  "old \<noteq> [] \<Longrightarrow> \<not> occurs_in old s \<Longrightarrow> replace_scan s old new = s"
  by (induction s) auto

lemma replace_scan_prefix:
  "old \<noteq> [] \<Longrightarrow> replace_scan (old @ r) old new = new @ replace_scan r old new"
  by (cases old) (auto simp: startswith_def)

lemma startswith_split: "startswith s p \<Longrightarrow> s = p @ drop (length p) s"
  unfolding startswith_def by (metis append_take_drop_id)

lemma str_replace_strip:
  assumes "old \<noteq> []" and "\<not> occurs_in old (spec_strip_prefix old s)"
  shows "str_replace s old [] = spec_strip_prefix old s"
proof (cases "startswith s old")
  case True
  then have s: "s = old @ drop (length old) s" by (rule startswith_split)
  have "replace_scan s old [] = replace_scan (old @ drop (length old) s) old []"
    using s by simp
  also have "\<dots> = replace_scan (drop (length old) s) old []"
    using assms(1) by (simp add: replace_scan_prefix)
  also have "\<dots> = drop (length old) s"
    using assms True by (simp add: replace_scan_absent spec_strip_prefix_def)
  finally show ?thesis
    using assms(1) True by (simp add: str_replace_def spec_strip_prefix_def)
next
  case False
  then show ?thesis
    using assms by (simp add: str_replace_def spec_strip_prefix_def replace_scan_absent)
qed

lemma process_paper_id:
  "process_paper paper = Some t \<Longrightarrow>
     attr_replace (dict_get paper ''id'' (JStr '''')) ''https://openalex.org/'' '''' =
       Some (openalex_id t)"
  by (auto simp: process_paper_def Let_def split: Option.bind_splits)

lemma process_paper_title:
  "process_paper paper = Some t \<Longrightarrow>
     title t = py_or (dict_get paper ''title'' (JStr ''''))
                     (dict_get paper ''display_name'' (JStr ''''))"
  by (auto simp: process_paper_def Let_def split: Option.bind_splits)

lemmas process_paper_eval =
  process_paper_def extract_doi_def dict_get_def get_if_def py_or_def str_replace_def
  startswith_def

text \<open>
  C5, as the specification states it, fails: \<^verbatim>\<open>str.replace\<close> removes the URL wherever it
  occurs, not only at the front, and a record with a good identifier but a malformed
  \<open>doi\<close> gives no tuple at all.
\<close>

theorem process_paper_id_counterexample:
  "map_option openalex_id
     (process_paper [(''id'', JStr ''https://openalex.org/https://openalex.org/W1'')]) = Some ''W1''
   \<and> spec_strip_prefix ''https://openalex.org/'' ''https://openalex.org/https://openalex.org/W1''
       = ''https://openalex.org/W1''
   \<and> process_paper [(''id'', JStr ''W1''), (''doi'', JInt 5)] = None"
  by (simp add: process_paper_eval spec_strip_prefix_def)

text \<open>
  C5 (amended): for every raw record whose \<open>id\<close> field is a string and whose processing
  does not raise, the tuple's \<open>openalex_id\<close> is that string with every occurrence of
  \<^verbatim>\<open>https://openalex.org/\<close> removed; whenever the URL does not occur in what is left
  after stripping the prefix, this is exactly the identifier stripped of its prefix.
\<close>

theorem process_paper_id_stripped:
  assumes "map_of paper ''id'' = Some (JStr s)" and "process_paper paper = Some t"
  shows "openalex_id t = str_replace s ''https://openalex.org/'' '''' \<and>
         (\<not> occurs_in ''https://openalex.org/'' (spec_strip_prefix ''https://openalex.org/'' s)
            \<longrightarrow> openalex_id t = spec_strip_prefix ''https://openalex.org/'' s)"
proof -
  have "dict_get paper ''id'' (JStr '''') = JStr s"
    using assms(1) by (simp add: dict_get_def)
  with process_paper_id [OF assms(2)]
  have id: "openalex_id t = str_replace s ''https://openalex.org/'' ''''" by simp
  show ?thesis
    using id str_replace_strip [of "''https://openalex.org/''" s] by simp
qed

theorem process_paper_id_stripped_witness:
  "openalex_id (the (process_paper [(''id'', JStr ''https://openalex.org/W1'')])) = ''W1''"
  using process_paper_id_stripped
    [of "[(''id'', JStr ''https://openalex.org/W1'')]" "''https://openalex.org/W1''"
        "the (process_paper [(''id'', JStr ''https://openalex.org/W1'')])"]
  by (simp add: process_paper_eval spec_strip_prefix_def)

text \<open>
  C7, as the specification states it, fails: a record with an identifier and neither
  title field is processed into a tuple whose title is the empty string.
\<close>

theorem process_paper_title_counterexample:
  "map_option title (process_paper [(''id'', JStr ''W1'')]) = Some (JStr '''')"
  by (simp add: process_paper_eval)

text \<open>
  C7 (amended): the title of a tuple produced by \<^verbatim>\<open>process_paper\<close> is the \<open>title\<close> field
  when that is truthy (present and not empty); otherwise it is the \<open>display_name\<close> field,
  or the empty string when that is absent. So the title is non-empty exactly when one of
  the two fields is.
\<close>

theorem process_paper_title_source:
  assumes "process_paper paper = Some t"
  shows "(py_truthy (dict_get paper ''title'' (JStr '''')) \<longrightarrow>
            title t = dict_get paper ''title'' (JStr '''')) \<and>
         (\<not> py_truthy (dict_get paper ''title'' (JStr '''')) \<longrightarrow>
            title t = dict_get paper ''display_name'' (JStr '''')) \<and>
         (py_truthy (title t) \<longleftrightarrow>
            py_truthy (dict_get paper ''title'' (JStr '''')) \<or>
            py_truthy (dict_get paper ''display_name'' (JStr '''')))"
  using process_paper_title [OF assms] by (simp add: py_or_def)

theorem process_paper_title_source_witness:
  "title (the (process_paper [(''id'', JStr ''W1''), (''display_name'', JStr ''A paper'')]))
     = JStr ''A paper''"
  using process_paper_title_source
    [of "[(''id'', JStr ''W1''), (''display_name'', JStr ''A paper'')]"
        "the (process_paper [(''id'', JStr ''W1''), (''display_name'', JStr ''A paper'')])"]
  by (simp add: process_paper_eval)

section \<open>Properties of the validator and the orchestrator\<close>

lemma failed_count_informational:
  "failed_tests (count_informational t c) = failed_tests c"
  by (simp add: count_informational_def)

lemma failed_count_test:
  "failed_tests (count_test t c) = failed_tests c + (if passed t then 0 else 1)"
  by (simp add: count_test_def Let_def)

lemma failed_fold_count_test:
  "failed_tests (fold (\<lambda>n. count_test (f n)) ns c) =
     failed_tests c + length (filter (\<lambda>n. \<not> passed (f n)) ns)"
  by (induction ns arbitrary: c) (simp_all add: failed_count_test)

lemma run_data_quality_tests_zero_iff:
  "run_data_quality_tests w d = Some 0 \<longleftrightarrow>
     db_reachable w \<and> table_present d \<and> fetch_total_count w \<noteq> None \<and>
     (\<forall>n \<in> set counted_tests. passed (run_test w n True))"
  by (auto simp: run_data_quality_tests_def table_exists_def failed_fold_count_test
        failed_count_informational no_tests_def filter_empty_conv Let_def
      split: Option.bind_splits if_splits)



text \<open>
  In the pipeline's own validator the outcome of the duplicate-DOI query has no
  influence on the result, whatever it is (a count, no row, an error).
\<close>

lemma run_data_quality_tests_doi_informational:
  "run_data_quality_tests (w\<lparr> query := (query w)(''Duplicate DOI'' := outcome) \<rparr>) d =
   run_data_quality_tests w d"
proof -
  have "\<forall>n \<in> set counted_tests.
          run_test (w\<lparr> query := (query w)(''Duplicate DOI'' := outcome) \<rparr>) n True =
          run_test w n True"
    by (simp add: counted_tests_def run_test_def)
  then have "fold (\<lambda>n. count_test
               (run_test (w\<lparr> query := (query w)(''Duplicate DOI'' := outcome) \<rparr>) n True))
               counted_tests no_tests =
             fold (\<lambda>n. count_test (run_test w n True)) counted_tests no_tests"
    by (intro fold_cong) simp_all
  then show ?thesis
    by (simp add: run_data_quality_tests_def table_exists_def fetch_total_count_def
          failed_count_informational Let_def)
qed

text \<open>
  C4: the duplicate-DOI check is informational and must never make the validator fail.
  The stand-alone validator of \<^verbatim>\<open>data_quality_tests.py\<close> does fail on it: with one
  duplicated DOI and every other check clean, \<^verbatim>\<open>run_all_tests\<close> returns 1, while the
  pipeline's \<^verbatim>\<open>run_data_quality_tests\<close> returns 0 on the same database.
\<close>

theorem run_all_tests_fails_on_duplicate_doi:
  "run_all_tests
     \<lparr> api = None, db_reachable = True, ddl_ok = (\<lambda>s. True), accepts = (\<lambda>p. True),
       clock = (\<lambda>n. n),
       query = (\<lambda>q. if q = ''Duplicate DOI'' then QRow 1
                     else if q = ''SELECT COUNT(*) FROM papers;'' then QRow 2 else QRow 0) \<rparr>
     \<lparr> table_present = True, table_rows = [], txn = 0 \<rparr> = 1
   \<and> run_data_quality_tests
     \<lparr> api = None, db_reachable = True, ddl_ok = (\<lambda>s. True), accepts = (\<lambda>p. True),
       clock = (\<lambda>n. n),
       query = (\<lambda>q. if q = ''Duplicate DOI'' then QRow 1
                     else if q = ''SELECT COUNT(*) FROM papers;'' then QRow 2 else QRow 0) \<rparr>
     \<lparr> table_present = True, table_rows = [], txn = 0 \<rparr> = Some 0"
  by (simp add: run_all_tests_def run_data_quality_tests_zero_iff table_exists_def
        fetch_total_count_def print_results_def test_duplicate_detection_def
        test_score_range_validation_def test_citation_count_validation_def
        test_missing_required_fields_def validator_run_test_def no_tests_def
        counted_tests_def run_test_def Let_def)

text \<open>
  C9: when the API query yields no records, \<^verbatim>\<open>run\<close> returns exit status 0 at once: the
  database is exactly as it was (no table created, no row written) and no later step,
  the validator included, is entered.
\<close>

theorem run_no_papers:
  "api w = Some [] \<Longrightarrow> run w batch_size skip_tests d = (0, d, [QueryApi])"
  by (simp add: run_def)

theorem run_no_papers_witness:
  "run \<lparr> api = Some [], db_reachable = True, ddl_ok = (\<lambda>s. True), accepts = (\<lambda>p. True),
         clock = (\<lambda>n. n), query = (\<lambda>q. QRow 0) \<rparr> 100 False
       \<lparr> table_present = False, table_rows = [], txn = 0 \<rparr>
   = (0, \<lparr> table_present = False, table_rows = [], txn = 0 \<rparr>, [QueryApi])"
  using run_no_papers
    [of "\<lparr> api = Some [], db_reachable = True, ddl_ok = (\<lambda>s. True), accepts = (\<lambda>p. True),
            clock = (\<lambda>n. n), query = (\<lambda>q. QRow 0) \<rparr>"
        100 False "\<lparr> table_present = False, table_rows = [], txn = 0 \<rparr>"]
  by simp






section \<open>Properties of the skip loop\<close>

text \<open>
  The loop raises exactly when some element of the list is not a dict: processing such an
  element raises, and so does the warning of the \<^verbatim>\<open>except\<close> clause.
\<close>

lemma process_papers_None_iff:
  "process_papers papers acc skipped = None \<longleftrightarrow>
     (\<exists>paper \<in> set papers. \<forall>obj. paper \<noteq> JObj obj)"
proof (induction papers arbitrary: acc skipped)
  case Nil
  then show ?case by simp
next
  case (Cons paper rest)
  show ?case
  proof (cases paper)
    case (JObj obj)
    then show ?thesis
      using Cons.IH [of acc "skipped + 1"] Cons.IH [of "acc @ [the (process_paper obj)]" skipped]
      by (cases "process_paper obj") (simp_all add: process_paper_value_def)
  qed (simp_all add: process_paper_value_def)
qed

text \<open>What one dict adds to the loop's state: a tuple, or one skip.\<close>

lemma process_papers_Suc:
  "process_papers papers acc (Suc skipped) =
     map_option (\<lambda>(ps, n). (ps, Suc n)) (process_papers papers acc skipped)"
  by (induction papers arbitrary: acc skipped) (simp_all split: option.splits)

lemma process_papers_append:
  "process_papers (xs @ ys) acc skipped =
     (case process_papers xs acc skipped of
        None \<Rightarrow> None
      | Some (ps, n) \<Rightarrow> process_papers ys ps n)"
  by (induction xs arbitrary: acc skipped) (simp_all split: option.splits)

lemma process_papers_length:
  "process_papers papers acc skipped = Some (ps, n) \<Longrightarrow>
     length ps + n = length acc + skipped + length papers"
proof (induction papers arbitrary: acc skipped)
  case Nil
  then show ?case by simp
next
  case (Cons paper rest)
  show ?case
  proof (cases "process_paper_value paper")
    case None
    with Cons.prems have "process_papers rest acc (skipped + 1) = Some (ps, n)"
      by (simp split: option.splits)
    from Cons.IH [OF this] show ?thesis by simp
  next
    case (Some processed)
    show ?thesis
    proof (cases "openalex_id processed = []")
      case True
      with Some Cons.prems have "process_papers rest acc (skipped + 1) = Some (ps, n)"
        by simp
      from Cons.IH [OF this] show ?thesis by simp
    next
      case False
      with Some Cons.prems have "process_papers rest (acc @ [processed]) skipped = Some (ps, n)"
        by simp
      from Cons.IH [OF this] show ?thesis by simp
    qed
  qed
qed

lemma process_papers_snoc:
  assumes "process_papers papers [] 0 = Some (ps, n)"
  shows "(\<exists>t. process_papers (papers @ [JObj obj]) [] 0 = Some (ps @ [t], n))
         \<or> process_papers (papers @ [JObj obj]) [] 0 = Some (ps, n + 1)"
  using assms
  by (cases "process_paper obj")
     (auto simp: process_papers_append process_paper_value_def)

lemma process_paper_missing_id:
  assumes "map_of paper ''id'' = None" and "process_paper paper = Some t"
  shows "openalex_id t = []"
proof -
  have "dict_get paper ''id'' (JStr '''') = JStr ''''"
    using assms(1) by (simp add: dict_get_def)
  with process_paper_id [OF assms(2)] show ?thesis
    by (simp add: str_replace_def)
qed

lemma process_paper_empty_id:
  assumes "map_of paper ''id'' = Some (JStr s)"
    and "str_replace s ''https://openalex.org/'' '''' = []"
    and "process_paper paper = Some t"
  shows "openalex_id t = []"
proof -
  have "dict_get paper ''id'' (JStr '''') = JStr s"
    using assms(1) by (simp add: dict_get_def)
  with process_paper_id [OF assms(3)] assms(2) show ?thesis by simp
qed

lemma process_papers_skip_one:
  assumes "process_paper obj = None
           \<or> (\<exists>t. process_paper obj = Some t \<and> openalex_id t = [])"
  shows "process_papers (before @ JObj obj # after) [] 0 =
           map_option (\<lambda>(ps, n). (ps, Suc n)) (process_papers (before @ after) [] 0)"
proof (cases "process_papers before [] 0")
  case None
  then show ?thesis by (simp add: process_papers_append)
next
  case (Some r)
  obtain acc skipped where r: "r = (acc, skipped)" by (cases r)
  have "process_papers (JObj obj # after) acc skipped = process_papers after acc (Suc skipped)"
    using assms by (auto simp: process_paper_value_def)
  then show ?thesis
    using Some r by (simp add: process_papers_append process_papers_Suc)
qed

text \<open>
  A dict whose identifier is missing, or empty once the URL is removed, or whose
  processing raises, is skipped: the loop's result on the whole list is its result on
  the list without that dict, with the skip count one higher.
\<close>

lemma process_papers_skips_dict:
  assumes "map_of obj ''id'' = None
           \<or> (\<exists>s. map_of obj ''id'' = Some (JStr s) \<and>
                   str_replace s ''https://openalex.org/'' '''' = [])
           \<or> process_paper obj = None"
  shows "process_papers (before @ JObj obj # after) [] 0 =
           map_option (\<lambda>(ps, n). (ps, Suc n)) (process_papers (before @ after) [] 0)"
proof (rule process_papers_skip_one)
  show "process_paper obj = None
        \<or> (\<exists>t. process_paper obj = Some t \<and> openalex_id t = [])"
    using assms process_paper_missing_id [of obj] process_paper_empty_id [of obj]
    by (cases "process_paper obj") auto
qed

text \<open>
  C3: a record that cannot be processed is to be skipped and counted, and the loop is to
  go on; normalization should never raise out of the loop. The loop does so for a dict
  without an identifier: of three elements the middle one is skipped and the two others
  are processed. It does not for an element that is not a dict: on the snapshot list
  \<^verbatim>\<open>[{"id": "W1"}, null, {"id": "W2"}]\<close> processing \<^verbatim>\<open>null\<close> raises, the warning of the
  \<^verbatim>\<open>except\<close> clause calls \<^verbatim>\<open>paper.get\<close> on it and raises again, and the exception leaves
  the loop: no element is processed and none is counted as skipped.
\<close>

theorem process_papers_raises_on_non_dict:
  "process_papers
     [JObj [(''id'', JStr ''W1'')], JNull, JObj [(''id'', JStr ''W2'')]] [] 0 = None
   \<and> map_option (\<lambda>(ps, n). (map openalex_id ps, n))
       (process_papers
          [JObj [(''id'', JStr ''W1'')], JObj [(''title'', JStr ''no id'')],
           JObj [(''id'', JStr ''W2'')]] [] 0) = Some ([''W1'', ''W2''], 1)"
  by (simp add: process_paper_value_def process_paper_eval)

section \<open>Properties of the batch upserter\<close>

lemma execute_Some:
  "execute w p d = Some d' \<Longrightarrow>
     table_present d' = table_present d \<and> txn d' = txn d \<and> table_present d \<and> accepts w p"
  by (auto simp: execute_def split: if_splits)

lemma execute_None_iff: "execute w p d = None \<longleftrightarrow> \<not> (table_present d \<and> accepts w p)"
  by (simp add: execute_def)

lemma executemany_Some:
  "executemany w ps d = Some d' \<Longrightarrow> table_present d' = table_present d \<and> txn d' = txn d"
proof (induction ps arbitrary: d)
  case Nil
  then show ?case by simp
next
  case (Cons p ps)
  then obtain d1 where 1: "execute w p d = Some d1" and 2: "executemany w ps d1 = Some d'"
    by (auto split: Option.bind_splits)
  from Cons.IH [OF 2] execute_Some [OF 1] show ?case by simp
qed

lemma executemany_None_iff:
  "executemany w ps d = None \<longleftrightarrow>
     ps \<noteq> [] \<and> \<not> (table_present d \<and> (\<forall>p \<in> set ps. accepts w p))"
proof (induction ps arbitrary: d)
  case Nil
  then show ?case by simp
next
  case (Cons p ps)
  show ?case
  proof (cases "execute w p d")
    case None
    then show ?thesis using execute_None_iff [of w p d] by auto
  next
    case (Some d1)
    then show ?thesis
      using Cons.IH [of d1] execute_Some [OF Some] by auto
  qed
qed

lemma insert_row_effect:
  "snd (insert_row w p (d, cnt)) = cnt + (if table_present d \<and> accepts w p then 1 else 0)
   \<and> table_present (fst (insert_row w p (d, cnt))) = table_present d
   \<and> txn (fst (insert_row w p (d, cnt))) = Suc (txn d)"
  by (auto simp: insert_row_def commit_def rollback_def execute_def)

lemma fold_insert_row_effect:
  "snd (fold (insert_row w) batch (d, cnt)) =
     cnt + (if table_present d then length (filter (accepts w) batch) else 0)
   \<and> table_present (fst (fold (insert_row w) batch (d, cnt))) = table_present d
   \<and> txn (fst (fold (insert_row w) batch (d, cnt))) = txn d + length batch"
proof (induction batch arbitrary: d cnt)
  case Nil
  then show ?case by simp
next
  case (Cons p ps)
  obtain d1 t1 where s: "insert_row w p (d, cnt) = (d1, t1)"
    by (cases "insert_row w p (d, cnt)")
  from insert_row_effect [of w p d cnt] s
  have e: "t1 = cnt + (if table_present d \<and> accepts w p then 1 else 0)"
    "table_present d1 = table_present d" "txn d1 = Suc (txn d)"
    by simp_all
  show ?case
    using Cons.IH [of d1 t1] s e by simp
qed

lemma insert_batch_effect:
  "snd (insert_batch w batch (d, cnt)) =
     cnt + (if table_present d then length (filter (accepts w) batch) else 0)
   \<and> table_present (fst (insert_batch w batch (d, cnt))) = table_present d"
proof (cases "executemany w batch d")
  case None
  then show ?thesis
    using fold_insert_row_effect [of w batch "rollback d" cnt]
    by (simp add: insert_batch_def rollback_def)
next
  case (Some d')
  then have "\<not> (batch \<noteq> [] \<and> \<not> (table_present d \<and> (\<forall>p \<in> set batch. accepts w p)))"
    using executemany_None_iff [of w batch d] by simp
  then have "length batch = (if table_present d then length (filter (accepts w) batch) else 0)"
    by (cases "batch = []") auto
  then show ?thesis
    using Some executemany_Some [OF Some] by (simp add: insert_batch_def commit_def)
qed

lemma fold_insert_batch_effect:
  "snd (fold (\<lambda>i. insert_batch w (f i)) starts (d, cnt)) =
     cnt + (if table_present d
              then sum_list (map (\<lambda>i. length (filter (accepts w) (f i))) starts) else 0)
   \<and> table_present (fst (fold (\<lambda>i. insert_batch w (f i)) starts (d, cnt))) = table_present d"
proof (induction starts arbitrary: d cnt)
  case Nil
  then show ?case by simp
next
  case (Cons i starts)
  obtain d1 t1 where s: "insert_batch w (f i) (d, cnt) = (d1, t1)"
    by (cases "insert_batch w (f i) (d, cnt)")
  from insert_batch_effect [of w "f i" d cnt] s
  have e: "t1 = cnt + (if table_present d then length (filter (accepts w) (f i)) else 0)"
    "table_present d1 = table_present d"
    by simp_all
  show ?case
    using Cons.IH [of d1 t1] s e by simp
qed

lemma concat_chunks_take:
  "concat (map (\<lambda>k. take b (drop (k * b) xs)) [0 ..< m]) = take (m * b) xs"
proof (induction m)
  case 0
  then show ?case by simp
next
  case (Suc m)
  have "take (m * b) xs @ take b (drop (m * b) xs) = take (m * b + b) xs"
    by (simp add: take_add)
  then show ?case using Suc by (simp add: add.commute)
qed

lemma chunks_cover:
  assumes "0 < b"
  shows "concat (map (\<lambda>k. take b (drop (k * b) xs)) [0 ..< (length xs + b - 1) div b]) = xs"
proof -
  have "length xs \<le> ((length xs + b - 1) div b) * b"
  proof -
    have "length xs + b - 1 < ((length xs + b - 1) div b) * b + b"
      using assms by (metis add.commute dividend_less_div_times)
    then show ?thesis using assms by linarith
  qed
  then show ?thesis by (simp add: concat_chunks_take)
qed

lemma sum_filter_chunks:
  assumes "0 < b"
  shows "sum_list (map (\<lambda>k. length (filter P (take b (drop (k * b) xs))))
           [0 ..< (length xs + b - 1) div b]) = length (filter P xs)"
proof -
  have "length (filter P (concat (map (\<lambda>k. take b (drop (k * b) xs))
          [0 ..< (length xs + b - 1) div b]))) = length (filter P xs)"
    using chunks_cover [OF assms, of xs] by simp
  then show ?thesis
    by (simp add: filter_concat length_concat comp_def)
qed

lemma insert_batches_total:
  assumes "0 < batch_size"
  shows "\<exists>d'. insert_batches w batch_size ps d =
           Some (d', if table_present d then length (filter (accepts w) ps) else 0)"
proof -
  let ?b = "nat batch_size"
  let ?starts = "map (\<lambda>k. k * ?b) [0 ..< (length ps + ?b - 1) div ?b]"
  have b: "0 < ?b" using assms by simp
  have r: "py_range (length ps) batch_size = Some ?starts"
    using assms by (simp add: py_range_def)
  have "sum_list (map (\<lambda>i. length (filter (accepts w) (batch_at ps i batch_size))) ?starts) =
        length (filter (accepts w) ps)"
    using sum_filter_chunks [OF b, of "accepts w" ps] by (simp add: batch_at_def comp_def)
  then have "snd (fold (\<lambda>i. insert_batch w (batch_at ps i batch_size)) ?starts (d, 0)) =
        (if table_present d then length (filter (accepts w) ps) else 0)"
    using fold_insert_batch_effect [of w "\<lambda>i. batch_at ps i batch_size" ?starts d 0] by simp
  then show ?thesis
    using r by (simp add: insert_batches_def) (metis prod.collapse)
qed

lemma insert_batches_bound:
  assumes "insert_batches w batch_size ps d = Some (d', cnt)"
  shows "cnt \<le> length ps"
proof (cases "0 < batch_size")
  case True
  from insert_batches_total [OF True, of w ps d] assms
  have "cnt = (if table_present d then length (filter (accepts w) ps) else 0)" by auto
  then show ?thesis by simp
next
  case False
  then show ?thesis
    using assms by (auto simp: insert_batches_def py_range_def split: if_splits)
qed

lemma insert_papers_bound:
  assumes "insert_papers_with_deduplication w batch_size papers d = (Some n, d')"
  shows "\<exists>ps k. process_papers papers [] 0 = Some (ps, k) \<and> n \<le> length ps
           \<and> length ps + k = length papers"
proof -
  from assms obtain ps k where p: "process_papers papers [] 0 = Some (ps, k)"
    by (cases "process_papers papers [] 0")
       (auto simp: insert_papers_with_deduplication_def)
  from assms p obtain d2 where "insert_batches w batch_size ps d = Some (d2, n)"
    by (auto simp: insert_papers_with_deduplication_def split: if_splits option.splits)
  from insert_batches_bound [OF this] p process_papers_length [OF p] show ?thesis by simp
qed

lemma insert_papers_raises:
  assumes "paper \<in> set papers" and "\<forall>obj. paper \<noteq> JObj obj"
  shows "insert_papers_with_deduplication w batch_size papers d = (None, d)"
proof -
  have "process_papers papers [] 0 = None"
    using assms process_papers_None_iff [of papers "[]" 0] by blast
  then show ?thesis by (simp add: insert_papers_with_deduplication_def)
qed

text \<open>
  C10: every raw record given to \<^verbatim>\<open>insert_papers_with_deduplication\<close> is to add either
  one tuple to the processed list or one to the skip count, so that the two add up to the
  length of the input. On the snapshot list \<^verbatim>\<open>[{"id": "W1"}, null, {"id": "W2"}]\<close> the first
  loop raises at \<^verbatim>\<open>null\<close>: the function returns no count, the database is as it was (the
  record \<open>W1\<close> is not written although the store accepts it), and \<^verbatim>\<open>null\<close> has added
  neither a tuple nor a skip. Without \<^verbatim>\<open>null\<close> both records are written.
\<close>

theorem insert_papers_raises_on_non_dict:
  "insert_papers_with_deduplication
     \<lparr> api = None, db_reachable = True, ddl_ok = (\<lambda>s. True), accepts = (\<lambda>p. True),
       clock = (\<lambda>n. n), query = (\<lambda>q. QRow 0) \<rparr>
     100
     [JObj [(''id'', JStr ''W1'')], JNull, JObj [(''id'', JStr ''W2'')]]
     \<lparr> table_present = True, table_rows = [], txn = 0 \<rparr>
   = (None, \<lparr> table_present = True, table_rows = [], txn = 0 \<rparr>)
   \<and> fst (insert_papers_with_deduplication
     \<lparr> api = None, db_reachable = True, ddl_ok = (\<lambda>s. True), accepts = (\<lambda>p. True),
       clock = (\<lambda>n. n), query = (\<lambda>q. QRow 0) \<rparr>
     100
     [JObj [(''id'', JStr ''W1'')], JObj [(''id'', JStr ''W2'')]]
     \<lparr> table_present = True, table_rows = [], txn = 0 \<rparr>) = Some 2"
  by (simp add: insert_papers_with_deduplication_def process_paper_value_def
        process_paper_eval insert_batches_def py_range_def batch_at_def insert_batch_def
        insert_row_def execute_def commit_def rollback_def)




section \<open>Properties of the upsert statement\<close>

lemma do_update_set_key: "openalex_id (do_update_set now p r) = openalex_id r"
  by (simp add: do_update_set_def)

lemma do_update_set_created: "created_at (do_update_set now p r) = created_at r"
  by (simp add: do_update_set_def)

lemma do_update_set_updated: "updated_at (do_update_set now p r) = now"
  by (simp add: do_update_set_def)

lemma do_update_set_data:
  "openalex_id r = openalex_id p \<Longrightarrow>
     processed_paper.truncate (do_update_set now p r) = p"
  by (cases p, cases r) (simp add: do_update_set_def processed_paper.defs)

lemma keys_iff:
  "k \<in> openalex_id ` set rows \<longleftrightarrow> (\<exists>r \<in> set rows. openalex_id r = k)"
  unfolding image_iff by auto

lemma insert_sql_keys:
  "map openalex_id (insert_sql now p rows) =
     (if openalex_id p \<in> set (map openalex_id rows) then map openalex_id rows
      else map openalex_id rows @ [openalex_id p])"
proof (cases "\<exists>r \<in> set rows. openalex_id r = openalex_id p")
  case True
  have "map openalex_id
          (map (\<lambda>r. if openalex_id r = openalex_id p then do_update_set now p r else r) rows) =
        map openalex_id rows"
    by (induction rows) (simp_all add: do_update_set_key)
  then show ?thesis using True by (simp add: insert_sql_def keys_iff del: map_map)
next
  case False
  then show ?thesis by (simp add: insert_sql_def keys_iff processed_paper.defs)
qed

lemma insert_sql_distinct:
  "distinct (map openalex_id rows) \<Longrightarrow> distinct (map openalex_id (insert_sql now p rows))"
  by (simp add: insert_sql_keys)

lemma insert_sql_has_key: "openalex_id p \<in> set (map openalex_id (insert_sql now p rows))"
  by (simp add: insert_sql_keys)

lemma filter_key_distinct:
  assumes "distinct (map openalex_id rows)" and "k \<in> set (map openalex_id rows)"
  shows "\<exists>r. filter (\<lambda>r. openalex_id r = k) rows = [r]"
  using assms
proof (induction rows)
  case Nil
  then show ?case by simp
next
  case (Cons a rows)
  show ?case
  proof (cases "openalex_id a = k")
    case True
    then have "filter (\<lambda>r. openalex_id r = k) rows = []"
      using Cons.prems(1) by (simp add: filter_empty_conv keys_iff)
    then show ?thesis using True by simp
  next
    case False
    then show ?thesis using Cons by auto
  qed
qed

lemma filter_insert_sql_conflict:
  assumes "filter (\<lambda>r. openalex_id r = openalex_id p) rows = [r1]"
  shows "filter (\<lambda>r. openalex_id r = openalex_id p) (insert_sql now p rows) =
           [do_update_set now p r1]"
proof -
  have "r1 \<in> set (filter (\<lambda>r. openalex_id r = openalex_id p) rows)"
    using assms by simp
  then have ex: "\<exists>r \<in> set rows. openalex_id r = openalex_id p"
    by auto
  have "filter (\<lambda>r. openalex_id r = openalex_id p)
          (map (\<lambda>r. if openalex_id r = openalex_id p then do_update_set now p r else r) rows) =
        map (do_update_set now p) (filter (\<lambda>r. openalex_id r = openalex_id p) rows)"
    by (induction rows) (simp_all add: do_update_set_key)
  then show ?thesis using ex assms by (simp add: insert_sql_def)
qed

lemma filter_insert_sql_fresh:
  assumes "openalex_id p \<notin> set (map openalex_id rows)"
  shows "filter (\<lambda>r. openalex_id r = openalex_id p) (insert_sql now p rows) =
           [processed_paper.extend p \<lparr> created_at = now, updated_at = now \<rparr>]"
proof -
  have no: "\<not> (\<exists>r \<in> set rows. openalex_id r = openalex_id p)"
    using assms by (simp add: keys_iff)
  then have "filter (\<lambda>r. openalex_id r = openalex_id p) rows = []"
    by (simp add: filter_empty_conv)
  moreover note no
  ultimately show ?thesis
    by (simp add: insert_sql_def processed_paper.defs)
qed

text \<open>
  C1: on a table whose \<open>openalex_id\<close> values are unique, running the upsert statement
  for the same tuple twice, at times \<open>t1\<close> and \<open>t2\<close>, leaves exactly one row with that
  \<open>openalex_id\<close>. Its 22 data columns are the tuple, its \<open>updated_at\<close> is \<open>t2\<close>, and its
  \<open>created_at\<close> is what it was after the first statement: \<open>t1\<close> when the first statement
  inserted the row.
\<close>

theorem upsert_twice:
  assumes "distinct (map openalex_id rows)"
  shows "\<exists>r1 r2.
           filter (\<lambda>r. openalex_id r = openalex_id p) (insert_sql t1 p rows) = [r1]
         \<and> filter (\<lambda>r. openalex_id r = openalex_id p)
             (insert_sql t2 p (insert_sql t1 p rows)) = [r2]
         \<and> processed_paper.truncate r2 = p
         \<and> updated_at r2 = t2
         \<and> created_at r2 = created_at r1
         \<and> (openalex_id p \<notin> set (map openalex_id rows) \<longrightarrow> created_at r2 = t1)
         \<and> distinct (map openalex_id (insert_sql t2 p (insert_sql t1 p rows)))"
proof -
  have d1: "distinct (map openalex_id (insert_sql t1 p rows))"
    using assms by (rule insert_sql_distinct)
  obtain r1 where r1: "filter (\<lambda>r. openalex_id r = openalex_id p) (insert_sql t1 p rows) = [r1]"
    using filter_key_distinct [OF d1 insert_sql_has_key] by blast
  have "r1 \<in> set (filter (\<lambda>r. openalex_id r = openalex_id p) (insert_sql t1 p rows))"
    using r1 by simp
  then have k1: "openalex_id r1 = openalex_id p"
    by simp
  have r2: "filter (\<lambda>r. openalex_id r = openalex_id p)
              (insert_sql t2 p (insert_sql t1 p rows)) = [do_update_set t2 p r1]"
    using r1 by (rule filter_insert_sql_conflict)
  have fresh: "openalex_id p \<notin> set (map openalex_id rows) \<longrightarrow> created_at r1 = t1"
    using r1 filter_insert_sql_fresh [of p rows t1] by (auto simp: processed_paper.defs)
  show ?thesis
    using r1 r2 k1 fresh insert_sql_distinct [OF d1, of t2 p]
    by (simp add: do_update_set_data do_update_set_created do_update_set_updated)
qed

theorem upsert_twice_witness:
  "map (\<lambda>r. (openalex_id r, title r, created_at r, updated_at r))
     (insert_sql 2 (the (process_paper [(''id'', JStr ''W1''), (''title'', JStr ''A paper'')]))
       (insert_sql 1 (the (process_paper [(''id'', JStr ''W1''), (''title'', JStr ''A paper'')]))
          [])) = [(''W1'', JStr ''A paper'', 1, 2)]"
  using upsert_twice
    [of "[]" "the (process_paper [(''id'', JStr ''W1''), (''title'', JStr ''A paper'')])" 1 2]
  by (simp add: insert_sql_def do_update_set_def processed_paper.defs process_paper_eval)

section \<open>Properties of the nested classification\<close>

lemma dict_get_update:
  "dict_get (AList.update k v al) k' dflt = (if k' = k then v else dict_get al k' dflt)"
  by (simp add: dict_get_def update_conv')

lemma dict_get_delete:
  "dict_get (AList.delete k al) k' dflt = (if k' = k then dflt else dict_get al k' dflt)"
  by (simp add: dict_get_def delete_conv')

lemma get_if_empty: "get_if (JObj []) k dflt other = Some other"
  by (simp add: get_if_def)

lemma get_if_null: "get_if JNull k dflt other = Some other"
  by (simp add: get_if_def)

lemma get_if_delete_other:
  assumes "k \<noteq> k0"
  shows "get_if (JObj (AList.delete k0 pt)) k v v = get_if (JObj pt) k v v"
proof (cases "AList.delete k0 pt = []")
  case True
  then have "map_of (AList.delete k0 pt) k = None" by simp
  then have "map_of pt k = None" using assms by (simp add: delete_conv')
  then show ?thesis using True by (simp add: get_if_def dict_get_def)
next
  case False
  then have "pt \<noteq> []" by auto
  then show ?thesis using False assms by (simp add: get_if_def dict_get_delete)
qed

lemma get_if_delete_same: "get_if (JObj (AList.delete k0 pt)) k0 v v = Some v"
  by (simp add: get_if_def dict_get_delete)

lemma extract_doi_update:
  "k \<noteq> ''doi'' \<Longrightarrow> extract_doi (AList.update k v paper) = extract_doi paper"
  by (simp add: extract_doi_def dict_get_update)

lemma process_paper_no_topic:
  assumes "dict_get paper ''primary_topic'' (JObj []) = JObj [] \<or>
           dict_get paper ''primary_topic'' (JObj []) = JNull"
    and "process_paper paper = Some t"
  shows "primary_topic_name t = JNull \<and> primary_topic_score t = JNull \<and>
         subfield_name t = JNull \<and> field_name t = JNull \<and> domain_name t = JNull"
  using assms
  by (auto simp: process_paper_def Let_def get_if_empty get_if_null
      split: Option.bind_split_asm)

lemma process_paper_drop_subfield:
  assumes "map_of paper ''primary_topic'' = Some (JObj pt)" and "process_paper paper = Some t"
  shows "process_paper
           (AList.update ''primary_topic'' (JObj (AList.delete ''subfield'' pt)) paper) =
         Some (t\<lparr> subfield_name := JNull \<rparr>)"
proof -
  have dpt: "dict_get paper ''primary_topic'' (JObj []) = JObj pt"
    using assms(1) by (simp add: dict_get_def)
  show ?thesis
    using assms(2)
    by (clarsimp simp: process_paper_def Let_def dict_get_update extract_doi_update dpt
          get_if_delete_other get_if_delete_same get_if_empty
        split: Option.bind_split_asm)
qed

lemma process_paper_drop_field:
  assumes "map_of paper ''primary_topic'' = Some (JObj pt)" and "process_paper paper = Some t"
  shows "process_paper
           (AList.update ''primary_topic'' (JObj (AList.delete ''field'' pt)) paper) =
         Some (t\<lparr> field_name := JNull \<rparr>)"
proof -
  have dpt: "dict_get paper ''primary_topic'' (JObj []) = JObj pt"
    using assms(1) by (simp add: dict_get_def)
  show ?thesis
    using assms(2)
    by (clarsimp simp: process_paper_def Let_def dict_get_update extract_doi_update dpt
          get_if_delete_other get_if_delete_same get_if_empty
        split: Option.bind_split_asm)
qed

lemma process_paper_drop_domain:
  assumes "map_of paper ''primary_topic'' = Some (JObj pt)" and "process_paper paper = Some t"
  shows "process_paper
           (AList.update ''primary_topic'' (JObj (AList.delete ''domain'' pt)) paper) =
         Some (t\<lparr> domain_name := JNull \<rparr>)"
proof -
  have dpt: "dict_get paper ''primary_topic'' (JObj []) = JObj pt"
    using assms(1) by (simp add: dict_get_def)
  show ?thesis
    using assms(2)
    by (clarsimp simp: process_paper_def Let_def dict_get_update extract_doi_update dpt
          get_if_delete_other get_if_delete_same get_if_empty
        split: Option.bind_split_asm)
qed

lemma process_paper_topic_fields:
  assumes "map_of paper ''primary_topic'' = Some (JObj pt)" and "pt \<noteq> []"
    and "process_paper paper = Some t"
  shows "primary_topic_name t = dict_get pt ''display_name'' JNull"
    and "primary_topic_score t = dict_get pt ''score'' JNull"
    and "get_if (dict_get pt ''subfield'' (JObj [])) ''display_name'' JNull JNull =
           Some (subfield_name t)"
    and "get_if (dict_get pt ''field'' (JObj [])) ''display_name'' JNull JNull =
           Some (field_name t)"
    and "get_if (dict_get pt ''domain'' (JObj [])) ''display_name'' JNull JNull =
           Some (domain_name t)"
proof -
  have dpt: "dict_get paper ''primary_topic'' (JObj []) = JObj pt"
    using assms(1) by (simp add: dict_get_def)
  have g: "\<And>k v. get_if (JObj pt) k v v = Some (dict_get pt k v)"
    using assms(2) by (simp add: get_if_def)
  show "primary_topic_name t = dict_get pt ''display_name'' JNull"
    using assms(3) by (auto simp: process_paper_def Let_def dpt g split: Option.bind_split_asm)
  show "primary_topic_score t = dict_get pt ''score'' JNull"
    using assms(3) by (auto simp: process_paper_def Let_def dpt g split: Option.bind_split_asm)
  show "get_if (dict_get pt ''subfield'' (JObj [])) ''display_name'' JNull JNull =
           Some (subfield_name t)"
    using assms(3) by (auto simp: process_paper_def Let_def dpt g split: Option.bind_split_asm)
  show "get_if (dict_get pt ''field'' (JObj [])) ''display_name'' JNull JNull =
           Some (field_name t)"
    using assms(3) by (auto simp: process_paper_def Let_def dpt g split: Option.bind_split_asm)
  show "get_if (dict_get pt ''domain'' (JObj [])) ''display_name'' JNull JNull =
           Some (domain_name t)"
    using assms(3) by (auto simp: process_paper_def Let_def dpt g split: Option.bind_split_asm)
qed

lemma sub_name_absent:
  "map_of pt k = None \<Longrightarrow>
     get_if (dict_get pt k (JObj [])) ''display_name'' JNull JNull = Some n \<Longrightarrow> n = JNull"
  by (simp add: dict_get_def get_if_def)

lemma sub_name_present:
  "map_of pt k = Some (JObj sub) \<Longrightarrow> sub \<noteq> [] \<Longrightarrow>
     get_if (dict_get pt k (JObj [])) ''display_name'' JNull JNull = Some n \<Longrightarrow>
     n = dict_get sub ''display_name'' JNull"
  by (simp add: dict_get_def get_if_def)

text \<open>
  C6: without a \<open>primary_topic\<close> the topic name, the score and the three derived names
  are all null. With a \<open>primary_topic\<close> object, the topic name and score are its
  \<open>display_name\<close> and \<open>score\<close>, and each of \<open>subfield\<close>, \<open>field\<close> and \<open>domain\<close> is read on its
  own: the derived name is the sub-object's \<open>display_name\<close>, it is null when the
  sub-object is absent, and taking one sub-object away changes nothing in the tuple but
  that one derived name, which becomes null.
\<close>

theorem primary_topic_fields:
  "(map_of paper ''primary_topic'' = None \<and> process_paper paper = Some t \<longrightarrow>
      primary_topic_name t = JNull \<and> primary_topic_score t = JNull \<and>
      subfield_name t = JNull \<and> field_name t = JNull \<and> domain_name t = JNull)
   \<and> (map_of paper ''primary_topic'' = Some (JObj pt) \<and> pt \<noteq> [] \<and>
       process_paper paper = Some t \<longrightarrow>
      primary_topic_name t = dict_get pt ''display_name'' JNull
      \<and> primary_topic_score t = dict_get pt ''score'' JNull
      \<and> (map_of pt ''subfield'' = None \<longrightarrow> subfield_name t = JNull)
      \<and> (map_of pt ''field'' = None \<longrightarrow> field_name t = JNull)
      \<and> (map_of pt ''domain'' = None \<longrightarrow> domain_name t = JNull)
      \<and> (\<forall>sub. sub \<noteq> [] \<and> map_of pt ''subfield'' = Some (JObj sub) \<longrightarrow>
            subfield_name t = dict_get sub ''display_name'' JNull)
      \<and> (\<forall>sub. sub \<noteq> [] \<and> map_of pt ''field'' = Some (JObj sub) \<longrightarrow>
            field_name t = dict_get sub ''display_name'' JNull)
      \<and> (\<forall>sub. sub \<noteq> [] \<and> map_of pt ''domain'' = Some (JObj sub) \<longrightarrow>
            domain_name t = dict_get sub ''display_name'' JNull)
      \<and> process_paper
           (AList.update ''primary_topic'' (JObj (AList.delete ''subfield'' pt)) paper) =
         Some (t\<lparr> subfield_name := JNull \<rparr>)
      \<and> process_paper
           (AList.update ''primary_topic'' (JObj (AList.delete ''field'' pt)) paper) =
         Some (t\<lparr> field_name := JNull \<rparr>)
      \<and> process_paper
           (AList.update ''primary_topic'' (JObj (AList.delete ''domain'' pt)) paper) =
         Some (t\<lparr> domain_name := JNull \<rparr>))"
proof (intro conjI impI allI)
  assume "map_of paper ''primary_topic'' = None \<and> process_paper paper = Some t"
  then have "dict_get paper ''primary_topic'' (JObj []) = JObj []" and "process_paper paper = Some t"
    by (simp_all add: dict_get_def)
  then have "primary_topic_name t = JNull \<and> primary_topic_score t = JNull \<and>
         subfield_name t = JNull \<and> field_name t = JNull \<and> domain_name t = JNull"
    using process_paper_no_topic [of paper t] by simp
  then show "primary_topic_name t = JNull" "primary_topic_score t = JNull"
    "subfield_name t = JNull" "field_name t = JNull" "domain_name t = JNull"
    by simp_all
next
  assume a: "map_of paper ''primary_topic'' = Some (JObj pt) \<and> pt \<noteq> [] \<and>
       process_paper paper = Some t"
  note f = process_paper_topic_fields [of paper pt t]
  show "primary_topic_name t = dict_get pt ''display_name'' JNull"
    using a f(1) by simp
  show "primary_topic_score t = dict_get pt ''score'' JNull"
    using a f(2) by simp
  show "subfield_name t = JNull" if "map_of pt ''subfield'' = None"
    using a f(3) that sub_name_absent [of pt "''subfield''" "subfield_name t"] by simp
  show "field_name t = JNull" if "map_of pt ''field'' = None"
    using a f(4) that sub_name_absent [of pt "''field''" "field_name t"] by simp
  show "domain_name t = JNull" if "map_of pt ''domain'' = None"
    using a f(5) that sub_name_absent [of pt "''domain''" "domain_name t"] by simp
  show "subfield_name t = dict_get sub ''display_name'' JNull"
    if "sub \<noteq> [] \<and> map_of pt ''subfield'' = Some (JObj sub)" for sub
    using a f(3) that sub_name_present [of pt "''subfield''" sub "subfield_name t"] by simp
  show "field_name t = dict_get sub ''display_name'' JNull"
    if "sub \<noteq> [] \<and> map_of pt ''field'' = Some (JObj sub)" for sub
    using a f(4) that sub_name_present [of pt "''field''" sub "field_name t"] by simp
  show "domain_name t = dict_get sub ''display_name'' JNull"
    if "sub \<noteq> [] \<and> map_of pt ''domain'' = Some (JObj sub)" for sub
    using a f(5) that sub_name_present [of pt "''domain''" sub "domain_name t"] by simp
  show "process_paper
           (AList.update ''primary_topic'' (JObj (AList.delete ''subfield'' pt)) paper) =
         Some (t\<lparr> subfield_name := JNull \<rparr>)"
    using a process_paper_drop_subfield [of paper pt t] by simp
  show "process_paper
           (AList.update ''primary_topic'' (JObj (AList.delete ''field'' pt)) paper) =
         Some (t\<lparr> field_name := JNull \<rparr>)"
    using a process_paper_drop_field [of paper pt t] by simp
  show "process_paper
           (AList.update ''primary_topic'' (JObj (AList.delete ''domain'' pt)) paper) =
         Some (t\<lparr> domain_name := JNull \<rparr>)"
    using a process_paper_drop_domain [of paper pt t] by simp
qed

theorem primary_topic_fields_witness:
  "(let pt = [(''display_name'', JStr ''Neural Networks''), (''score'', JFloat 0.5),
              (''subfield'', JObj [(''display_name'', JStr ''Artificial Intelligence'')]),
              (''field'', JObj [(''display_name'', JStr ''Computer Science'')])];
        paper = [(''id'', JStr ''W1''), (''primary_topic'', JObj pt)];
        t = the (process_paper paper)
    in primary_topic_name t = JStr ''Neural Networks''
       \<and> subfield_name t = JStr ''Artificial Intelligence''
       \<and> field_name t = JStr ''Computer Science''
       \<and> domain_name t = JNull
       \<and> process_paper
            (AList.update ''primary_topic'' (JObj (AList.delete ''subfield'' pt)) paper) =
          Some (t\<lparr> subfield_name := JNull \<rparr>))"
proof -
  define pt where "pt = [(''display_name'', JStr ''Neural Networks''), (''score'', JFloat 0.5),
              (''subfield'', JObj [(''display_name'', JStr ''Artificial Intelligence'')]),
              (''field'', JObj [(''display_name'', JStr ''Computer Science'')])]"
  define paper where "paper = [(''id'', JStr ''W1''), (''primary_topic'', JObj pt)]"
  define t where "t = the (process_paper paper)"
  have p: "map_of paper ''primary_topic'' = Some (JObj pt)" and ne: "pt \<noteq> []"
    by (simp_all add: paper_def pt_def)
  have ok: "process_paper paper = Some t"
    by (simp add: t_def paper_def pt_def process_paper_eval)
  have m: "map_of pt ''subfield'' = Some (JObj [(''display_name'', JStr ''Artificial Intelligence'')])"
    "map_of pt ''field'' = Some (JObj [(''display_name'', JStr ''Computer Science'')])"
    "map_of pt ''domain'' = None"
    by (simp_all add: pt_def)
  have "primary_topic_name t = JStr ''Neural Networks''
       \<and> subfield_name t = JStr ''Artificial Intelligence''
       \<and> field_name t = JStr ''Computer Science''
       \<and> domain_name t = JNull
       \<and> process_paper
            (AList.update ''primary_topic'' (JObj (AList.delete ''subfield'' pt)) paper) =
          Some (t\<lparr> subfield_name := JNull \<rparr>)"
    using primary_topic_fields [of paper t pt] p ne ok m
    by (simp add: dict_get_def) (simp add: pt_def)
  then show ?thesis
    unfolding Let_def t_def paper_def pt_def by simp
qed

end
